theory Spec2Isabelle
  imports Main "HOL-Library.Multiset"
begin

section \<open>Strings\<close>

text \<open>
  A Python \<open>str\<close> is a sequence of code points. The model covers the code points
  U+0000 .. U+00FF: a character is a \<open>char\<close>, read as its code point by \<open>ord\<close>, and
  a string is a \<open>char list\<close>. On this range \<open>str.lower\<close> works character by
  character and stays inside the range.
\<close>

definition ord :: "char \<Rightarrow> nat" where
  "ord c = of_char c"

definition space :: char where
  "space = CHR '' ''"

definition newline :: char where
  "newline = CHR 0x0A"

text \<open>
  \<open>str.lower\<close> on one code point below U+0100: the letters A-Z and the Latin-1 capitals
  U+00C0 .. U+00DE (the multiplication sign U+00D7 apart) move up by 32; every other
  code point is kept.
\<close>

definition lower_char :: "char \<Rightarrow> char" where
  "lower_char c =
     (let n = ord c in
      if (65 \<le> n \<and> n \<le> 90) \<or> (192 \<le> n \<and> n \<le> 222 \<and> n \<noteq> 215)
      then char_of (n + 32) else c)"

definition lower :: "string \<Rightarrow> string" where
  "lower s = map lower_char s"

text \<open>
  \<open>s.replace(old, new)\<close>: the occurrences of \<open>old\<close> are replaced from left to right
  without overlap; an empty \<open>old\<close> matches before every character and at the end.
\<close>

function replace :: "string \<Rightarrow> string \<Rightarrow> string \<Rightarrow> string" where
  "replace [] old new = (if old = [] then new else [])"
| "replace (c # cs) old new =
     (if old = [] then new @ c # replace cs old new
      else if take (length old) (c # cs) = old
        then new @ replace (drop (length old) (c # cs)) old new
      else c # replace cs old new)"
  by pat_completeness auto
termination
  by (relation "measure (\<lambda>(s, old, new). length s)") auto

text \<open>\<open>sorted(list(word))\<close> on characters: a stable sort by code point.\<close>

definition sorted_chars :: "string \<Rightarrow> char list" where
  "sorted_chars s = sort_key ord s"

text \<open>\<open>''.join(cs)\<close> for a list of one-character strings.\<close>

definition join :: "char list \<Rightarrow> string" where
  "join cs = concat (map (\<lambda>c. [c]) cs)"

section \<open>The class Anagrams\<close>

text \<open>
  The dict \<open>anagrams\<close> is an association list with one entry per key, in insertion
  order, as a Python dict keeps it.
\<close>

type_synonym index = "(string \<times> string list) list"

record Anagrams =
  words_file_path :: string
  anagrams :: index

definition anagram_hash :: "string \<Rightarrow> string" where
  "anagram_hash word = join (sorted_chars (lower (replace word [space] [])))"

text \<open>\<open>d.setdefault(k, []).append(w)\<close>\<close>

fun setdefault_append :: "index \<Rightarrow> string \<Rightarrow> string \<Rightarrow> index" where
  "setdefault_append [] k w = [(k, [w])]"
| "setdefault_append ((k', ws) # d) k w =
     (if k' = k then (k', ws @ [w]) # d else (k', ws) # setdefault_append d k w)"

definition store_anagram :: "Anagrams \<Rightarrow> string \<Rightarrow> Anagrams" where
  "store_anagram self word0 =
     (let word = replace word0 [newline] []
      in self\<lparr>anagrams := setdefault_append (anagrams self) (anagram_hash word) word\<rparr>)"

text \<open>\<open>self.anagrams.get(key)\<close>\<close>

definition get_anagrams :: "Anagrams \<Rightarrow> string \<Rightarrow> string list option" where
  "get_anagrams self word = map_of (anagrams self) (anagram_hash word)"

section \<open>Reading the word file\<close>

text \<open>
  The exceptions that leave the constructor. \<open>EOFError\<close> and \<open>ZlibError\<close> (Python's
  \<open>zlib.error\<close>) come from the gzip reader. \<open>BadGzipFile\<close> and \<open>TypeError\<close> are always
  caught inside and have no constructor here.
\<close>

datatype error = RuntimeError string | UnicodeDecodeError | EOFError | ZlibError

text \<open>
  A line as \<open>readlines\<close> returns it: a \<open>str\<close> from the text file, or a \<open>bytes\<close> object
  from the gzip file. The only thing the program does with a \<open>bytes\<close> object is
  \<open>str(word, 'utf-8')\<close>, so a \<open>bytes\<close> object is represented by what that call does:
  \<open>Some s\<close> when it decodes to \<open>s\<close>, \<open>None\<close> when it raises \<open>UnicodeDecodeError\<close>.
\<close>

datatype line = Str string | Bytes "string option"

text \<open>
  What \<open>gzip.open(path, 'r').readlines()\<close> does on a file: it returns the lines of the
  decompressed content, or raises \<open>BadGzipFile\<close> (the file does not start as a gzip
  file, or its checksum is wrong), \<open>EOFError\<close> (the gzip stream is cut short) or
  \<open>zlib.error\<close> (the compressed data is corrupt).
\<close>

datatype gzip_read =
  GzipLines "string option list" | BadGzipFile | GzipEOFError | GzipZlibError

text \<open>
  The file at \<open>words_file_path\<close>, as the two readers see it:
  \<open>gzip_readlines\<close> is what \<open>gzip.open(path, 'r').readlines()\<close> does;
  \<open>text_readlines\<close> is the result of \<open>open(path, 'r').readlines()\<close>,
  \<open>None\<close> when it raises \<open>UnicodeDecodeError\<close>. The file exists and can be opened.
\<close>

record source_file =
  gzip_readlines :: gzip_read
  text_readlines :: "string list option"

text \<open>
  The context manager \<open>read_file\<close>. The body of the \<open>with\<close> statement runs at the
  \<open>yield\<close>, so it is an argument, and an exception of the body is raised at that \<open>yield\<close>:
  inside the first \<open>try\<close> only \<open>BadGzipFile\<close> is caught, which the body never raises;
  inside the second, a \<open>UnicodeDecodeError\<close> becomes the \<open>RuntimeError\<close>. An \<open>EOFError\<close> or
  a \<open>zlib.error\<close> of the gzip reader is raised before the \<open>yield\<close> and no handler
  catches it.
\<close>

definition unsupported :: "string \<Rightarrow> error" where
  "unsupported path = RuntimeError (''Unsupported file '' @ path)"

definition read_file :: "source_file \<Rightarrow> string \<Rightarrow> (line list \<Rightarrow> error + 'a) \<Rightarrow> error + 'a" where
  "read_file file path body =
     (case gzip_readlines file of
        GzipLines ls \<Rightarrow> body (map Bytes ls)
      | BadGzipFile \<Rightarrow>
          (case text_readlines file of
             None \<Rightarrow> Inl (unsupported path)
           | Some ls \<Rightarrow>
               (case body (map Str ls) of
                  Inl UnicodeDecodeError \<Rightarrow> Inl (unsupported path)
                | r \<Rightarrow> r))
      | GzipEOFError \<Rightarrow> Inl EOFError
      | GzipZlibError \<Rightarrow> Inl ZlibError)"

text \<open>
  \<open>try: word = str(word, 'utf-8') except TypeError: pass\<close>. On a \<open>str\<close> the call raises
  \<open>TypeError\<close> and the word is kept; on \<open>bytes\<close> it decodes or raises
  \<open>UnicodeDecodeError\<close>, which is not caught here.
\<close>

fun decode :: "line \<Rightarrow> error + string" where
  "decode (Str s) = Inr s"
| "decode (Bytes (Some s)) = Inr s"
| "decode (Bytes None) = Inl UnicodeDecodeError"

text \<open>The \<open>for\<close> loop of \<open>__post_init__\<close>.\<close>

fun store_words :: "Anagrams \<Rightarrow> line list \<Rightarrow> error + Anagrams" where
  "store_words self [] = Inr self"
| "store_words self (word # words) =
     (case decode word of
        Inl e \<Rightarrow> Inl e
      | Inr w \<Rightarrow> store_words (store_anagram self w) words)"

definition post_init :: "source_file \<Rightarrow> Anagrams \<Rightarrow> error + Anagrams" where
  "post_init file self = read_file file (words_file_path self) (store_words self)"

text \<open>
  \<open>Anagrams(path)\<close>: the dataclass constructor with the default \<open>anagrams = {}\<close>, then
  \<open>__post_init__\<close>. An exception leaves the caller without an object.
\<close>

definition new_Anagrams :: "source_file \<Rightarrow> string \<Rightarrow> error + Anagrams" where
  "new_Anagrams file path = post_init file \<lparr>words_file_path = path, anagrams = []\<rparr>"

section \<open>The specification's notions\<close>

text \<open>
  The canonical key in the specification's words: remove the space characters, lowercase
  what remains, sort by code point.
\<close>

definition remove_spaces :: "string \<Rightarrow> string" where
  "remove_spaces w = filter (\<lambda>c. c \<noteq> space) w"

definition canonicalKey :: "string \<Rightarrow> string" where
  "canonicalKey w = sort_key ord (map lower_char (remove_spaces w))"

text \<open>
  The lines of the source as text, and its Words: a Word is a line with its trailing
  newline removed. A line of \<open>readlines\<close> holds a newline at its end or nowhere.
\<close>

fun line_text :: "line \<Rightarrow> string" where
  "line_text (Str s) = s"
| "line_text (Bytes (Some s)) = s"
| "line_text (Bytes None) = []"

definition source_lines :: "source_file \<Rightarrow> line list" where
  "source_lines file =
     (case gzip_readlines file of
        GzipLines ls \<Rightarrow> map Bytes ls
      | BadGzipFile \<Rightarrow> (case text_readlines file of Some ls \<Rightarrow> map Str ls | None \<Rightarrow> [])
      | GzipEOFError \<Rightarrow> []
      | GzipZlibError \<Rightarrow> [])"

definition strip_newline :: "string \<Rightarrow> string" where
  "strip_newline l = (if l \<noteq> [] \<and> last l = newline then butlast l else l)"

definition line_shaped :: "string \<Rightarrow> bool" where
  "line_shaped l = (newline \<notin> set (strip_newline l))"

definition source_words :: "source_file \<Rightarrow> string list" where
  "source_words file = map (\<lambda>l. strip_newline (line_text l)) (source_lines file)"

text \<open>All the words an index holds, bucket after bucket.\<close>

definition stored_words :: "Anagrams \<Rightarrow> string list" where
  "stored_words self = concat (map snd (anagrams self))"

text \<open>
  The invariant of the index: one bucket per key, no empty bucket, and every word of a
  bucket has the bucket's key as its canonical key.
\<close>

definition index_inv :: "index \<Rightarrow> bool" where
  "index_inv d =
     (distinct (map fst d) \<and>
      list_all (\<lambda>(k, ws). ws \<noteq> [] \<and> list_all (\<lambda>w. anagram_hash w = k) ws) d)"

text \<open>The bucket of a key, empty when the key is absent.\<close>

definition bucket :: "index \<Rightarrow> string \<Rightarrow> string list" where
  "bucket d k = (case map_of d k of None \<Rightarrow> [] | Some ws \<Rightarrow> ws)"

text \<open>The word list of the repository's tests, as a plain text file and as a gzip file.\<close>

definition words_lines :: "string list" where
  "words_lines =
     [''dictionary'' @ [newline], ''indicatory'' @ [newline], ''tea spoon'' @ [newline],
      ''teaspoon'' @ [newline], ''FooBar'' @ [newline], ''foobar'' @ [newline],
      ''A-and-R'' @ [newline]]"

definition words_txt :: source_file where
  "words_txt = \<lparr>gzip_readlines = BadGzipFile, text_readlines = Some words_lines\<rparr>"

definition words_txt_gz :: source_file where
  "words_txt_gz =
     \<lparr>gzip_readlines = GzipLines (map Some words_lines), text_readlines = None\<rparr>"

definition words_index :: index where
  "words_index =
     [(''acdiinorty'', [''dictionary'', ''indicatory'']),
      (''aenoopst'', [''tea spoon'', ''teaspoon'']),
      (''abfoor'', [''FooBar'', ''foobar'']),
      (''--aadnr'', [''A-and-R''])]"

definition words_built :: Anagrams where
  "words_built = \<lparr>words_file_path = ''words.txt'', anagrams = words_index\<rparr>"


definition bad_utf8_gz :: source_file where
  "bad_utf8_gz =
     \<lparr>gzip_readlines = GzipLines [Some (''dictionary'' @ [newline]), None],
      text_readlines = None\<rparr>"


section \<open>Characters and strings\<close>

lemma replace_char_filter: "replace s [c] [] = filter (\<lambda>x. x \<noteq> c) s"
  by (induction s) auto

lemma join_id: "join cs = cs"
  by (induction cs) (simp_all add: join_def)

lemma anagram_hash_unfold:
  "anagram_hash w = sort_key ord (map lower_char (filter (\<lambda>c. c \<noteq> space) w))"
  by (simp add: anagram_hash_def join_id sorted_chars_def lower_def replace_char_filter)

lemma ord_char_of: "n < 256 \<Longrightarrow> ord (char_of n) = n"
  by (simp add: ord_def)

lemma ord_space: "ord space = 32"
  by (simp add: ord_def space_def)

lemma ord_newline: "ord newline = 10"
  by (simp add: ord_def newline_def)

lemma ord_inj: "ord c = ord d \<longleftrightarrow> c = d"
  by (simp add: ord_def)

lemma lower_char_upper:
  assumes "(65 \<le> ord c \<and> ord c \<le> 90) \<or> (192 \<le> ord c \<and> ord c \<le> 222 \<and> ord c \<noteq> 215)"
  shows "lower_char c = char_of (ord c + 32)" and "ord (lower_char c) = ord c + 32"
proof -
  show 1: "lower_char c = char_of (ord c + 32)"
    using assms unfolding lower_char_def Let_def by (rule if_P)
  have "ord c + 32 < 256" using assms by arith
  then show "ord (lower_char c) = ord c + 32"
    unfolding 1 by (rule ord_char_of)
qed

lemma lower_char_other:
  assumes "\<not> ((65 \<le> ord c \<and> ord c \<le> 90) \<or> (192 \<le> ord c \<and> ord c \<le> 222 \<and> ord c \<noteq> 215))"
  shows "lower_char c = c"
  using assms unfolding lower_char_def Let_def by (rule if_not_P)

lemma lower_char_idem: "lower_char (lower_char c) = lower_char c"
proof (cases "(65 \<le> ord c \<and> ord c \<le> 90) \<or> (192 \<le> ord c \<and> ord c \<le> 222 \<and> ord c \<noteq> 215)")
  case True
  have o: "ord (lower_char c) = ord c + 32" using True by (rule lower_char_upper(2))
  have "\<not> ((65 \<le> ord c + 32 \<and> ord c + 32 \<le> 90) \<or>
      (192 \<le> ord c + 32 \<and> ord c + 32 \<le> 222 \<and> ord c + 32 \<noteq> 215))"
    using True by arith
  then have "\<not> ((65 \<le> ord (lower_char c) \<and> ord (lower_char c) \<le> 90) \<or>
      (192 \<le> ord (lower_char c) \<and> ord (lower_char c) \<le> 222 \<and> ord (lower_char c) \<noteq> 215))"
    unfolding o .
  then show ?thesis by (rule lower_char_other)
next
  case False
  then have "lower_char c = c" by (rule lower_char_other)
  then show ?thesis by simp
qed

text \<open>Lowercasing neither makes nor removes a character below the letter \<open>A\<close>.\<close>

lemma lower_char_low:
  assumes "ord x < 65"
  shows "lower_char c = x \<longleftrightarrow> c = x"
proof
  assume a: "lower_char c = x"
  show "c = x"
  proof (cases "(65 \<le> ord c \<and> ord c \<le> 90) \<or> (192 \<le> ord c \<and> ord c \<le> 222 \<and> ord c \<noteq> 215)")
    case True
    then have "ord (lower_char c) = ord c + 32" by (rule lower_char_upper(2))
    then have "ord c + 32 = ord x" using a by simp
    then show ?thesis using True assms by arith
  next
    case False
    then have "lower_char c = c" by (rule lower_char_other)
    then show ?thesis using a by simp
  qed
next
  assume cx: "c = x"
  have "\<not> ((65 \<le> ord c \<and> ord c \<le> 90) \<or> (192 \<le> ord c \<and> ord c \<le> 222 \<and> ord c \<noteq> 215))"
    using assms unfolding cx by arith
  then have "lower_char c = c" by (rule lower_char_other)
  then show "lower_char c = x" using cx by simp
qed

lemma lower_char_space: "lower_char c = space \<longleftrightarrow> c = space"
  by (rule lower_char_low) (simp add: ord_space)

lemma lower_char_newline: "lower_char c = newline \<longleftrightarrow> c = newline"
  by (rule lower_char_low) (simp add: ord_newline)

lemma anagram_hash_fixed:
  assumes ns: "space \<notin> set u" and lo: "\<And>c. c \<in> set u \<Longrightarrow> lower_char c = c"
  shows "anagram_hash (sort_key ord u) = sort_key ord u"
proof -
  have f: "filter (\<lambda>c. c \<noteq> space) (sort_key ord u) = sort_key ord u"
  proof (rule filter_True)
    show "\<forall>x\<in>set (sort_key ord u). x \<noteq> space" using ns by auto
  qed
  have m: "map lower_char (sort_key ord u) = sort_key ord u"
    by (rule map_idI) (simp add: lo)
  have s: "sort_key ord (sort_key ord u) = sort_key ord u"
    by (rule sort_key_id_if_sorted) (rule sorted_sort_key)
  have "anagram_hash (sort_key ord u) =
      sort_key ord (map lower_char (filter (\<lambda>c. c \<noteq> space) (sort_key ord u)))"
    by (rule anagram_hash_unfold)
  also have "\<dots> = sort_key ord (map lower_char (sort_key ord u))" by (simp only: f)
  also have "\<dots> = sort_key ord (sort_key ord u)" by (simp only: m)
  also have "\<dots> = sort_key ord u" by (rule s)
  finally show ?thesis .
qed

lemma lowered_no_space: "space \<notin> set (map lower_char (filter (\<lambda>c. c \<noteq> space) w))"
proof
  assume "space \<in> set (map lower_char (filter (\<lambda>c. c \<noteq> space) w))"
  then have "space \<in> lower_char ` {c \<in> set w. c \<noteq> space}" by (simp only: set_map set_filter)
  then obtain c where c: "c \<noteq> space" "space = lower_char c" by blast
  from c(2) have "lower_char c = space" by (rule sym)
  then have "c = space" by (simp only: lower_char_space)
  with c(1) show False by (rule notE)
qed

lemma lowered_fixed:
  assumes "c \<in> set (map lower_char (filter (\<lambda>c. c \<noteq> space) w))"
  shows "lower_char c = c"
proof -
  from assms have "c \<in> lower_char ` {c \<in> set w. c \<noteq> space}" by (simp only: set_map set_filter)
  then obtain d where "c = lower_char d" by blast
  then show ?thesis by (simp only: lower_char_idem)
qed

section \<open>The canonical key\<close>

text \<open>
  C1. For every word, \<open>anagram_hash\<close> is the specification's canonical key: the word with
  its space characters removed (and no other character), lowercased, and sorted by code
  point. The result is sorted by code point and holds exactly the lowercased non-space
  characters of the word, each as often as the word does. It is a function of the word
  alone.
\<close>

theorem anagram_hash_canonicalKey:
  "anagram_hash w = canonicalKey w
   \<and> sorted (map ord (anagram_hash w))
   \<and> mset (anagram_hash w) = image_mset lower_char (filter_mset (\<lambda>c. c \<noteq> space) (mset w))"
proof (intro conjI)
  show "anagram_hash w = canonicalKey w"
    by (simp only: anagram_hash_unfold canonicalKey_def remove_spaces_def)
  show "sorted (map ord (anagram_hash w))"
    by (simp only: anagram_hash_unfold sorted_sort_key)
  show "mset (anagram_hash w) = image_mset lower_char (filter_mset (\<lambda>c. c \<noteq> space) (mset w))"
    by (simp only: anagram_hash_unfold mset_sort mset_map mset_filter)
qed

text \<open>
  C10. The canonical key is idempotent: the key of a key is that key, since a key has no
  space, is lowercase and is sorted.
\<close>

theorem anagram_hash_idempotent: "anagram_hash (anagram_hash w) = anagram_hash w"
  unfolding anagram_hash_unfold [of w]
  using lowered_no_space lowered_fixed by (rule anagram_hash_fixed)

section \<open>The index as an association list\<close>

lemma fst_set_setdefault_append:
  "fst ` set (setdefault_append d k w) = insert k (fst ` set d)"
  by (induction d k w rule: setdefault_append.induct) auto

lemma distinct_setdefault_append:
  "distinct (map fst d) \<Longrightarrow> distinct (map fst (setdefault_append d k w))"
proof (induction d k w rule: setdefault_append.induct)
  case (1 k w)
  then show ?case by simp
next
  case (2 k' ws d k w)
  show ?case
  proof (cases "k' = k")
    case True
    then show ?thesis using 2 by simp
  next
    case False
    have "k' \<notin> fst ` set (setdefault_append d k w)"
      using 2(2) False by (simp add: fst_set_setdefault_append)
    then show ?thesis using 2 False by simp
  qed
qed

lemma map_of_setdefault_append:
  "map_of (setdefault_append d k w) k' =
     (if k' = k then Some (bucket d k @ [w]) else map_of d k')"
  by (induction d k w rule: setdefault_append.induct) (auto simp add: bucket_def)

lemma bucket_setdefault_append:
  "bucket (setdefault_append d k w) k' = bucket d k' @ (if k' = k then [w] else [])"
  by (simp add: bucket_def map_of_setdefault_append)

lemma buckets_setdefault_append:
  assumes "list_all (\<lambda>(k, ws). ws \<noteq> [] \<and> list_all (\<lambda>w. anagram_hash w = k) ws) d"
  shows "list_all (\<lambda>(k, ws). ws \<noteq> [] \<and> list_all (\<lambda>w. anagram_hash w = k) ws)
           (setdefault_append d (anagram_hash w) w)"
  using assms by (induction d) auto

lemma index_inv_setdefault_append:
  "index_inv d \<Longrightarrow> index_inv (setdefault_append d (anagram_hash w) w)"
  unfolding index_inv_def
  using distinct_setdefault_append buckets_setdefault_append by blast

lemma index_inv_store_anagram:
  "index_inv (anagrams self) \<Longrightarrow> index_inv (anagrams (store_anagram self w))"
  by (simp add: store_anagram_def Let_def index_inv_setdefault_append)

lemma index_inv_foldl:
  "index_inv (anagrams self) \<Longrightarrow> index_inv (anagrams (foldl store_anagram self ts))"
  by (induction ts arbitrary: self) (simp_all add: index_inv_store_anagram)

lemma bucket_store_anagram:
  "bucket (anagrams (store_anagram self t)) k =
     bucket (anagrams self) k @ filter (\<lambda>w. anagram_hash w = k) [replace t [newline] []]"
  by (simp add: store_anagram_def Let_def bucket_setdefault_append)

lemma bucket_foldl:
  "bucket (anagrams (foldl store_anagram self ts)) k =
     bucket (anagrams self) k @
     filter (\<lambda>w. anagram_hash w = k) (map (\<lambda>t. replace t [newline] []) ts)"
proof (induction ts arbitrary: self)
  case Nil
  show ?case by simp
next
  case (Cons t ts)
  have "bucket (anagrams (foldl store_anagram self (t # ts))) k =
      bucket (anagrams (store_anagram self t)) k @
      filter (\<lambda>w. anagram_hash w = k) (map (\<lambda>t. replace t [newline] []) ts)"
    using Cons [of "store_anagram self t"] by simp
  then show ?case by (simp add: bucket_store_anagram)
qed

lemma words_file_path_foldl:
  "words_file_path (foldl store_anagram self ts) = words_file_path self"
  by (induction ts arbitrary: self) (simp_all add: store_anagram_def Let_def)

lemma index_inv_entry:
  assumes "index_inv d" and "(k, ws) \<in> set d"
  shows "map_of d k = Some ws" and "ws \<noteq> []" and "\<And>w. w \<in> set ws \<Longrightarrow> anagram_hash w = k"
proof -
  show "map_of d k = Some ws"
    using assms by (simp add: index_inv_def)
  have "ws \<noteq> [] \<and> list_all (\<lambda>w. anagram_hash w = k) ws"
    using assms by (auto simp add: index_inv_def list_all_iff)
  then show "ws \<noteq> []" and "\<And>w. w \<in> set ws \<Longrightarrow> anagram_hash w = k"
    by (simp_all add: list_all_iff)
qed

lemma map_of_bucket:
  assumes "index_inv d"
  shows "map_of d k = (case bucket d k of [] \<Rightarrow> None | b # bs \<Rightarrow> Some (b # bs))"
proof (cases "map_of d k")
  case None
  then show ?thesis by (simp add: bucket_def)
next
  case (Some ws)
  then have "(k, ws) \<in> set d" by (rule map_of_SomeD)
  then have "ws \<noteq> []" using assms index_inv_entry(2) by blast
  then show ?thesis using Some by (cases ws) (simp_all add: bucket_def)
qed

lemma index_inv_empty: "index_inv []"
  by (simp add: index_inv_def)

section \<open>Construction\<close>

lemma store_words_Inr:
  "store_words self ls = Inr a \<Longrightarrow>
     a = foldl store_anagram self (map line_text ls) \<and> Bytes None \<notin> set ls"
proof (induction ls arbitrary: self)
  case Nil
  then show ?case by simp
next
  case (Cons l ls)
  show ?case
  proof (cases l)
    case (Str s)
    then show ?thesis using Cons by simp
  next
    case (Bytes b)
    show ?thesis
    proof (cases b)
      case None
      then show ?thesis using Cons(2) Bytes by simp
    next
      case (Some s)
      then show ?thesis using Cons Bytes by simp
    qed
  qed
qed

lemma store_words_foldl:
  "Bytes None \<notin> set ls \<Longrightarrow> store_words self ls = Inr (foldl store_anagram self (map line_text ls))"
proof (induction ls arbitrary: self)
  case Nil
  then show ?case by simp
next
  case (Cons l ls)
  then show ?case by (cases l rule: line_text.cases) simp_all
qed

lemma new_Anagrams_Inr:
  assumes "new_Anagrams file path = Inr a"
  shows "store_words \<lparr>words_file_path = path, anagrams = []\<rparr> (source_lines file) = Inr a"
proof (cases "gzip_readlines file")
  case (GzipLines ls)
  then show ?thesis
    using assms by (simp add: new_Anagrams_def post_init_def read_file_def source_lines_def)
next
  case BadGzipFile
  show ?thesis
  proof (cases "text_readlines file")
    case None
    then show ?thesis
      using assms BadGzipFile
      by (simp add: new_Anagrams_def post_init_def read_file_def)
  next
    case (Some ls)
    then show ?thesis
      using assms BadGzipFile
      by (auto simp add: new_Anagrams_def post_init_def read_file_def source_lines_def
          split: sum.splits error.splits)
  qed
next
  case GzipEOFError
  then show ?thesis
    using assms by (simp add: new_Anagrams_def post_init_def read_file_def)
next
  case GzipZlibError
  then show ?thesis
    using assms by (simp add: new_Anagrams_def post_init_def read_file_def)
qed

lemma new_Anagrams_foldl:
  assumes "new_Anagrams file path = Inr a"
  shows "a = foldl store_anagram \<lparr>words_file_path = path, anagrams = []\<rparr>
               (map line_text (source_lines file))"
  using new_Anagrams_Inr [OF assms] store_words_Inr by blast

text \<open>
  The constructor returns an object whenever the file can be read: a gzip file whose
  lines all decode, or a text file.
\<close>

lemma new_Anagrams_succeeds:
  assumes "(\<exists>ls. gzip_readlines file = GzipLines ls \<and> None \<notin> set ls)
     \<or> (gzip_readlines file = BadGzipFile \<and> text_readlines file \<noteq> None)"
  shows "\<exists>a. new_Anagrams file path = Inr a"
  using assms
proof
  assume "\<exists>ls. gzip_readlines file = GzipLines ls \<and> None \<notin> set ls"
  then obtain ls where ls: "gzip_readlines file = GzipLines ls" "None \<notin> set ls" by blast
  have "Bytes None \<notin> set (map Bytes ls)" using ls(2) by auto
  then show ?thesis
    using ls(1) by (simp add: new_Anagrams_def post_init_def read_file_def store_words_foldl)
next
  assume "gzip_readlines file = BadGzipFile \<and> text_readlines file \<noteq> None"
  then obtain ls where ls: "gzip_readlines file = BadGzipFile" "text_readlines file = Some ls"
    by auto
  have "Bytes None \<notin> set (map Str ls)" by auto
  then show ?thesis
    using ls by (simp add: new_Anagrams_def post_init_def read_file_def store_words_foldl)
qed

lemma built_index:
  assumes "new_Anagrams file path = Inr a"
  shows "index_inv (anagrams a)"
    and "bucket (anagrams a) k =
       filter (\<lambda>w. anagram_hash w = k)
         (map (\<lambda>l. replace (line_text l) [newline] []) (source_lines file))"
    and "words_file_path a = path"
proof -
  let ?self = "\<lparr>words_file_path = path, anagrams = []\<rparr>"
  have a: "a = foldl store_anagram ?self (map line_text (source_lines file))"
    using assms by (rule new_Anagrams_foldl)
  have "index_inv (anagrams ?self)" by (simp add: index_inv_empty)
  then show "index_inv (anagrams a)" unfolding a by (rule index_inv_foldl)
  show "bucket (anagrams a) k =
       filter (\<lambda>w. anagram_hash w = k)
         (map (\<lambda>l. replace (line_text l) [newline] []) (source_lines file))"
  proof -
    have "bucket (anagrams ?self) k = []" by (simp add: bucket_def)
    then show ?thesis unfolding a by (simp add: bucket_foldl comp_def)
  qed
  show "words_file_path a = path"
    unfolding a by (simp add: words_file_path_foldl)
qed

lemma strip_newline_filter:
  assumes "line_shaped t"
  shows "replace t [newline] [] = strip_newline t"
proof (cases "t \<noteq> [] \<and> last t = newline")
  case True
  then have t: "t = butlast t @ [newline]" by (metis append_butlast_last_id)
  have s: "strip_newline t = butlast t" using True by (simp add: strip_newline_def)
  have "newline \<notin> set (butlast t)" using assms unfolding line_shaped_def s .
  then have "filter (\<lambda>x. x \<noteq> newline) (butlast t) = butlast t"
    by (auto simp add: filter_id_conv)
  then have "filter (\<lambda>x. x \<noteq> newline) (butlast t @ [newline]) = butlast t" by simp
  then have "filter (\<lambda>x. x \<noteq> newline) t = butlast t" using t by simp
  then show ?thesis by (simp only: replace_char_filter s)
next
  case False
  then have s: "strip_newline t = t" by (auto simp add: strip_newline_def)
  have "newline \<notin> set t" using assms unfolding line_shaped_def s .
  then have "filter (\<lambda>x. x \<noteq> newline) t = t"
    by (auto simp add: filter_id_conv)
  then show ?thesis by (simp only: replace_char_filter s)
qed

lemma set_anagram_hash: "set (anagram_hash w) = lower_char ` {c \<in> set w. c \<noteq> space}"
  by (simp add: anagram_hash_unfold)

lemma newline_neq_space: "newline \<noteq> space"
  by (simp add: newline_def space_def)

lemma newline_in_anagram_hash: "newline \<in> set (anagram_hash w) \<longleftrightarrow> newline \<in> set w"
proof
  assume "newline \<in> set (anagram_hash w)"
  then obtain c where c: "c \<in> set w" "newline = lower_char c"
    unfolding set_anagram_hash by blast
  from c(2) have "lower_char c = newline" by (rule sym)
  then have "c = newline" by (simp only: lower_char_newline)
  with c(1) show "newline \<in> set w" by simp
next
  assume n: "newline \<in> set w"
  have "lower_char newline = newline" by (simp only: lower_char_newline)
  then have "newline \<in> lower_char ` {c \<in> set w. c \<noteq> space}"
    using n newline_neq_space by force
  then show "newline \<in> set (anagram_hash w)" by (simp only: set_anagram_hash)
qed

lemma newline_not_in_stripped: "newline \<notin> set (replace t [newline] [])"
  by (simp add: replace_char_filter)

lemma built_lookup_newline:
  assumes "new_Anagrams file path = Inr a" and "newline \<in> set q"
  shows "get_anagrams a q = None"
proof -
  have "anagram_hash w \<noteq> anagram_hash q" if "newline \<notin> set w" for w
    using that assms(2) newline_in_anagram_hash by metis
  then have "filter (\<lambda>w. anagram_hash w = anagram_hash q)
         (map (\<lambda>l. replace (line_text l) [newline] []) (source_lines file)) = []"
    by (auto simp add: filter_empty_conv newline_not_in_stripped)
  then have "bucket (anagrams a) (anagram_hash q) = []"
    by (simp only: built_index(2) [OF assms(1)])
  then show ?thesis
    using map_of_bucket [OF built_index(1) [OF assms(1)], of "anagram_hash q"]
    by (simp add: get_anagrams_def)
qed




lemma stored_words_entry:
  "A \<in> set (stored_words a) \<Longrightarrow> \<exists>k ws. (k, ws) \<in> set (anagrams a) \<and> A \<in> set ws"
  unfolding stored_words_def by fastforce

lemma anagram_hash_lower: "anagram_hash (lower w) = anagram_hash w"
proof -
  have "filter (\<lambda>c. c \<noteq> space) (map lower_char w) = map lower_char (filter (\<lambda>c. c \<noteq> space) w)"
    by (induction w) (simp_all add: lower_char_space)
  moreover have "map lower_char (map lower_char u) = map lower_char u" for u
    by (induction u) (simp_all add: lower_char_idem)
  ultimately show ?thesis
    by (simp only: anagram_hash_unfold lower_def)
qed

lemma anagram_hash_no_spaces: "anagram_hash (replace w [space] []) = anagram_hash w"
  by (simp add: anagram_hash_unfold replace_char_filter)

lemma words_txt_build: "new_Anagrams words_txt ''words.txt'' = Inr words_built"
  by code_simp

section \<open>The claims about the index\<close>

text \<open>
  C2. After a successful construction the index satisfies its invariant: one bucket per
  key, no empty bucket, and for every key \<open>k\<close> of the index and every word \<open>w\<close> of its
  bucket, the canonical key of \<open>w\<close> is \<open>k\<close> and looking \<open>w\<close> up returns that very bucket.
  The invariant is preserved afterwards: \<open>get_anagrams\<close> returns a value and leaves the
  index as it is, and any further calls of \<open>store_anagram\<close>, the only method that writes
  the index, keep it.
\<close>

theorem built_index_invariant:
  assumes "new_Anagrams file path = Inr a"
  shows "index_inv (anagrams a)
     \<and> (\<forall>(k, ws) \<in> set (anagrams a). \<forall>w \<in> set ws.
           anagram_hash w = k \<and> get_anagrams a w = Some ws)
     \<and> index_inv (anagrams (foldl store_anagram a ts))"
proof (intro conjI)
  show inv: "index_inv (anagrams a)" using assms by (rule built_index(1))
  show "\<forall>(k, ws) \<in> set (anagrams a). \<forall>w \<in> set ws.
           anagram_hash w = k \<and> get_anagrams a w = Some ws"
  proof (intro ballI, clarify)
    fix k ws w
    assume e: "(k, ws) \<in> set (anagrams a)" and w: "w \<in> set ws"
    have k: "anagram_hash w = k" using inv e w by (rule index_inv_entry(3))
    have "map_of (anagrams a) k = Some ws" using inv e by (rule index_inv_entry(1))
    then show "anagram_hash w = k \<and> get_anagrams a w = Some ws"
      using k by (simp add: get_anagrams_def)
  qed
  show "index_inv (anagrams (foldl store_anagram a ts))" using inv by (rule index_inv_foldl)
qed

theorem built_index_invariant_witness:
  "new_Anagrams words_txt ''words.txt'' = Inr words_built
   \<and> index_inv (anagrams words_built)
   \<and> index_inv (anagrams (foldl store_anagram words_built [''Listen'', ''Silent'']))"
proof -
  have h: "new_Anagrams words_txt ''words.txt'' = Inr words_built" by (rule words_txt_build)
  from built_index_invariant [OF h, of "[''Listen'', ''Silent'']"] h show ?thesis by blast
qed

text \<open>
  C3. Words \<open>A\<close> and \<open>B\<close> with the same canonical key have the same lookup result on any
  index, and on a built index, if \<open>A\<close> is stored then the lookup of \<open>B\<close> returns a bucket
  that contains \<open>A\<close>. Lookups ignore case (\<open>lower w\<close> and \<open>w\<close>, \<open>foobaR\<close> and \<open>FOOBAR\<close>) and
  spaces (\<open>w\<close> with and without its spaces, \<open>tea spoon\<close> and \<open>teaspoon\<close>).
\<close>

theorem lookup_by_key_class:
  assumes "anagram_hash A = anagram_hash B" and "new_Anagrams file path = Inr a"
  shows "get_anagrams self A = get_anagrams self B
     \<and> (A \<in> set (stored_words a) \<longrightarrow> (\<exists>ws. get_anagrams a B = Some ws \<and> A \<in> set ws))
     \<and> get_anagrams self (lower w) = get_anagrams self w
     \<and> get_anagrams self (replace w [space] []) = get_anagrams self w
     \<and> get_anagrams self ''foobaR'' = get_anagrams self ''FOOBAR''
     \<and> get_anagrams self ''tea spoon'' = get_anagrams self ''teaspoon''"
proof (intro conjI impI)
  show "get_anagrams self A = get_anagrams self B"
    using assms(1) by (simp add: get_anagrams_def)
  show "\<exists>ws. get_anagrams a B = Some ws \<and> A \<in> set ws" if "A \<in> set (stored_words a)"
  proof -
    from that obtain k ws where e: "(k, ws) \<in> set (anagrams a)" and A: "A \<in> set ws"
      using stored_words_entry by blast
    have inv: "index_inv (anagrams a)" using assms(2) by (rule built_index(1))
    have k: "anagram_hash A = k" using inv e A by (rule index_inv_entry(3))
    have "map_of (anagrams a) k = Some ws" using inv e by (rule index_inv_entry(1))
    then have "get_anagrams a B = Some ws"
      using k assms(1) by (simp add: get_anagrams_def)
    then show ?thesis using A by blast
  qed
  show "get_anagrams self (lower w) = get_anagrams self w"
    by (simp add: get_anagrams_def anagram_hash_lower)
  show "get_anagrams self (replace w [space] []) = get_anagrams self w"
    by (simp add: get_anagrams_def anagram_hash_no_spaces)
  have "anagram_hash ''foobaR'' = anagram_hash ''FOOBAR''" by code_simp
  then show "get_anagrams self ''foobaR'' = get_anagrams self ''FOOBAR''"
    by (simp add: get_anagrams_def)
  have "anagram_hash ''tea spoon'' = anagram_hash ''teaspoon''" by code_simp
  then show "get_anagrams self ''tea spoon'' = get_anagrams self ''teaspoon''"
    by (simp add: get_anagrams_def)
qed

theorem lookup_by_key_class_witness:
  "anagram_hash ''teaspoon'' = anagram_hash ''tea spoon''
   \<and> new_Anagrams words_txt ''words.txt'' = Inr words_built
   \<and> ''teaspoon'' \<in> set (stored_words words_built)
   \<and> (\<exists>ws. get_anagrams words_built ''tea spoon'' = Some ws \<and> ''teaspoon'' \<in> set ws)"
proof -
  have k: "anagram_hash ''teaspoon'' = anagram_hash ''tea spoon''" by code_simp
  have h: "new_Anagrams words_txt ''words.txt'' = Inr words_built" by (rule words_txt_build)
  have s: "''teaspoon'' \<in> set (stored_words words_built)"
    by (simp add: stored_words_def words_built_def words_index_def)
  from lookup_by_key_class [OF k h] k h s show ?thesis by blast
qed

text \<open>
  C4. On a built index, \<open>get_anagrams\<close> returns the whole bucket stored under the
  canonical key of the query when there is one, and \<open>None\<close> otherwise; it is a total
  function into \<open>string list option\<close>, so it raises nothing. It never returns an empty
  list, since no bucket of the index is empty.
\<close>

theorem lookup_total:
  assumes "new_Anagrams file path = Inr a"
  shows "(\<forall>ws. (anagram_hash w, ws) \<in> set (anagrams a) \<longrightarrow> get_anagrams a w = Some ws)
     \<and> (anagram_hash w \<notin> fst ` set (anagrams a) \<longrightarrow> get_anagrams a w = None)
     \<and> get_anagrams a w \<noteq> Some []
     \<and> [] \<notin> snd ` set (anagrams a)"
proof -
  have inv: "index_inv (anagrams a)" using assms by (rule built_index(1))
  have ne: "ws \<noteq> []" if "(k, ws) \<in> set (anagrams a)" for k ws
    using inv that by (rule index_inv_entry(2))
  have 1: "\<forall>ws. (anagram_hash w, ws) \<in> set (anagrams a) \<longrightarrow> get_anagrams a w = Some ws"
    using index_inv_entry(1) [OF inv] by (simp add: get_anagrams_def)
  have 2: "anagram_hash w \<notin> fst ` set (anagrams a) \<longrightarrow> get_anagrams a w = None"
    by (simp add: get_anagrams_def map_of_eq_None_iff)
  have 3: "get_anagrams a w \<noteq> Some []"
  proof
    assume "get_anagrams a w = Some []"
    then have "(anagram_hash w, []) \<in> set (anagrams a)"
      unfolding get_anagrams_def by (rule map_of_SomeD)
    then show False using ne by blast
  qed
  have 4: "[] \<notin> snd ` set (anagrams a)" using ne by force
  from 1 2 3 4 show ?thesis by blast
qed

theorem lookup_total_witness:
  "new_Anagrams words_txt ''words.txt'' = Inr words_built
   \<and> get_anagrams words_built ''indicatory'' = Some [''dictionary'', ''indicatory'']
   \<and> get_anagrams words_built ''fizzbang'' \<noteq> Some []"
proof -
  have h: "new_Anagrams words_txt ''words.txt'' = Inr words_built" by (rule words_txt_build)
  have e: "(anagram_hash ''indicatory'', [''dictionary'', ''indicatory'']) \<in> set (anagrams words_built)"
    by code_simp
  from lookup_total [OF h, of "''indicatory''"] e
  have "get_anagrams words_built ''indicatory'' = Some [''dictionary'', ''indicatory'']" by blast
  moreover from lookup_total [OF h, of "''fizzbang''"]
  have "get_anagrams words_built ''fizzbang'' \<noteq> Some []" by blast
  ultimately show ?thesis using h by blast
qed

text \<open>
  C5. The index built from the seven lines dictionary, indicatory, tea spoon, teaspoon,
  FooBar, foobar, A-and-R, read as plain text or from the gzip file, answers:
  dictionary \<open>\<mapsto>\<close> [dictionary, indicatory]; tea spoon \<open>\<mapsto>\<close> [tea spoon, teaspoon];
  foobaR \<open>\<mapsto>\<close> [FooBar, foobar]; randa-- \<open>\<mapsto>\<close> [A-and-R], the hyphens being kept by the key,
  so that randa- with one hyphen finds nothing; fizzbang \<open>\<mapsto>\<close> \<open>None\<close>.
\<close>

theorem words_txt_scenario:
  "new_Anagrams words_txt ''words.txt'' = Inr words_built
   \<and> new_Anagrams words_txt_gz ''words.txt.gz'' = Inr (words_built\<lparr>words_file_path := ''words.txt.gz''\<rparr>)
   \<and> get_anagrams words_built ''dictionary'' = Some [''dictionary'', ''indicatory'']
   \<and> get_anagrams words_built ''tea spoon'' = Some [''tea spoon'', ''teaspoon'']
   \<and> get_anagrams words_built ''foobaR'' = Some [''FooBar'', ''foobar'']
   \<and> get_anagrams words_built ''randa--'' = Some [''A-and-R'']
   \<and> get_anagrams words_built ''randa-'' = None
   \<and> get_anagrams words_built ''fizzbang'' = None"
  by code_simp




text \<open>
  C7. A gzip file whose second line is not UTF-8: \<open>str(word, 'utf-8')\<close> raises
  \<open>UnicodeDecodeError\<close> in the loop, the first \<open>try\<close> of \<open>read_file\<close> catches \<open>BadGzipFile\<close>
  only, and the constructor ends with \<open>UnicodeDecodeError\<close>, not with the \<open>RuntimeError\<close>
  that the text path gives for the same failure.
\<close>

theorem undecodable_gzip_line:
  "new_Anagrams bad_utf8_gz ''words.txt.gz'' = Inl UnicodeDecodeError"
  by code_simp

text \<open>
  C8, as stated, fails: on the index of the test word list, \<open>dictionary\<close> finds its bucket,
  and \<open>dictionary\<close> followed by a newline finds nothing.
\<close>

theorem lookup_newline_counterexample:
  "new_Anagrams words_txt ''words.txt'' = Inr words_built
   \<and> get_anagrams words_built ''dictionary'' = Some [''dictionary'', ''indicatory'']
   \<and> get_anagrams words_built (''dictionary'' @ [newline]) = None"
  by code_simp

text \<open>
  C8, amended. Lookup computes the canonical key of the query and nothing else: it does
  not remove a line terminator, which only \<open>store_anagram\<close> does. On a built index no key
  holds a newline, so the lookup of any string that contains a newline returns \<open>None\<close>; the
  lookup of \<open>w\<close> with a newline attached therefore equals the lookup of \<open>w\<close> exactly when
  \<open>w\<close> has no bucket.
\<close>

theorem lookup_keeps_newline:
  assumes "new_Anagrams file path = Inr a"
  shows "get_anagrams a q = map_of (anagrams a) (canonicalKey q)
     \<and> (newline \<in> set q \<longrightarrow> get_anagrams a q = None)
     \<and> get_anagrams a (w @ [newline]) = None
     \<and> (get_anagrams a (w @ [newline]) = get_anagrams a w \<longleftrightarrow> get_anagrams a w = None)"
proof -
  have 1: "get_anagrams a q = map_of (anagrams a) (canonicalKey q)"
    by (simp add: get_anagrams_def anagram_hash_unfold canonicalKey_def remove_spaces_def)
  have 2: "newline \<in> set q \<longrightarrow> get_anagrams a q = None"
    using assms built_lookup_newline by blast
  have 3: "get_anagrams a (w @ [newline]) = None"
    using assms by (rule built_lookup_newline) simp
  from 1 2 3 show ?thesis by auto
qed

theorem lookup_keeps_newline_witness:
  "new_Anagrams words_txt ''words.txt'' = Inr words_built
   \<and> get_anagrams words_built (''foobar'' @ [newline]) = None"
proof -
  have h: "new_Anagrams words_txt ''words.txt'' = Inr words_built" by (rule words_txt_build)
  from lookup_keeps_newline [OF h, of _ "''foobar''"] h show ?thesis by blast
qed

text \<open>
  C9. For every source whose lines hold a newline at their end or nowhere, as \<open>readlines\<close>
  returns them, the built index has one bucket per key, and its entries are exactly the
  pairs of a key \<open>k\<close> and the non-empty list of the source's Words with canonical key \<open>k\<close>,
  in source order and with repetitions; a Word is its line with the trailing newline
  removed and nothing else changed.
\<close>

theorem buckets_are_source_subsequences:
  assumes "new_Anagrams file path = Inr a"
    and "list_all (\<lambda>l. line_shaped (line_text l)) (source_lines file)"
  shows "distinct (map fst (anagrams a))
     \<and> (\<forall>k ws. (k, ws) \<in> set (anagrams a) \<longleftrightarrow>
           ws \<noteq> [] \<and> ws = filter (\<lambda>w. anagram_hash w = k) (source_words file))"
proof -
  have inv: "index_inv (anagrams a)" using assms(1) by (rule built_index(1))
  have "map (\<lambda>l. replace (line_text l) [newline] []) (source_lines file) = source_words file"
    unfolding source_words_def
  proof (rule map_cong [OF refl])
    fix l assume "l \<in> set (source_lines file)"
    then have "line_shaped (line_text l)" using assms(2) by (simp add: list_all_iff)
    then show "replace (line_text l) [newline] [] = strip_newline (line_text l)"
      by (rule strip_newline_filter)
  qed
  then have b: "bucket (anagrams a) k = filter (\<lambda>w. anagram_hash w = k) (source_words file)" for k
    by (simp only: built_index(2) [OF assms(1)])
  have "(k, ws) \<in> set (anagrams a) \<longleftrightarrow>
      ws \<noteq> [] \<and> ws = filter (\<lambda>w. anagram_hash w = k) (source_words file)" for k ws
  proof
    assume e: "(k, ws) \<in> set (anagrams a)"
    have "map_of (anagrams a) k = Some ws" using inv e by (rule index_inv_entry(1))
    then have "bucket (anagrams a) k = ws" by (simp add: bucket_def)
    moreover have "ws \<noteq> []" using inv e by (rule index_inv_entry(2))
    ultimately show "ws \<noteq> [] \<and> ws = filter (\<lambda>w. anagram_hash w = k) (source_words file)"
      using b by simp
  next
    assume r: "ws \<noteq> [] \<and> ws = filter (\<lambda>w. anagram_hash w = k) (source_words file)"
    then have "bucket (anagrams a) k = ws" by (simp only: b)
    with r have ws: "ws \<noteq> []" "bucket (anagrams a) k = ws" by blast+
    then have "map_of (anagrams a) k = Some ws"
      using map_of_bucket [OF inv, of k] by (cases ws) simp_all
    then show "(k, ws) \<in> set (anagrams a)" by (rule map_of_SomeD)
  qed
  moreover have "distinct (map fst (anagrams a))" using inv by (simp add: index_inv_def)
  ultimately show ?thesis by blast
qed

theorem buckets_are_source_subsequences_witness:
  "new_Anagrams words_txt ''words.txt'' = Inr words_built
   \<and> list_all (\<lambda>l. line_shaped (line_text l)) (source_lines words_txt)
   \<and> distinct (map fst (anagrams words_built))
   \<and> filter (\<lambda>w. anagram_hash w = ''abfoor'') (source_words words_txt) = [''FooBar'', ''foobar'']"
proof -
  have h: "new_Anagrams words_txt ''words.txt'' = Inr words_built" by (rule words_txt_build)
  have l: "list_all (\<lambda>l. line_shaped (line_text l)) (source_lines words_txt)" by code_simp
  have e: "(''abfoor'', [''FooBar'', ''foobar'']) \<in> set (anagrams words_built)"
    by (simp add: words_built_def words_index_def)
  from buckets_are_source_subsequences [OF h l] e
  have "distinct (map fst (anagrams words_built))"
    and "[''FooBar'', ''foobar''] = filter (\<lambda>w. anagram_hash w = ''abfoor'') (source_words words_txt)"
    by blast+
  then show ?thesis using h l by simp
qed

end
